theory Spec2Isabelle
  imports Complex_Main
begin

section \<open>The LRR feed parser (lrrfeed.py)\<close>

text \<open>
  The module keeps, for every feed of the catalog \<open>RSS_FEEDS\<close>, a polling task, a
  lock, the time of the last refresh and the latest entry seen. The dictionary
  \<open>updater\<close> that holds them is an attribute of the class \<open>LRRFeedParser\<close>, so it
  lives in the global state below and not in the record of an instance.

  Everything the coroutines do to the outside world (log lines, the HTTP request, the
  two calls on the client, sleeping) is collected in a list of events, in program order.
  What the outside world answers (the response to a request, the reading of the event
  loop's clock) is an argument of the function that asks for it.

  Clock readings, the delay and sleep lengths are Python floats. A finite float is the
  real number it denotes, and comparing two floats compares these numbers, so the values
  are of type \<open>real\<close>. The sum and the difference of two floats are rounded; they are
  not the sum and the difference of the reals, so the functions of the program never use
  \<open>+\<close> or \<open>-\<close> on such values: float addition and subtraction are parameters
  (\<open>float_ops\<close> below).
\<close>

subsection \<open>Catalog\<close>

type_synonym feed = string

record feed_info =
  feed_title :: string
  feed_url :: string

definition RSS_FEEDS :: "(feed \<times> feed_info) list" where
  "RSS_FEEDS =
    [(''video'', \<lparr>feed_title = ''LRR Video Feed'',
                  feed_url = ''http://feeds.feedburner.com/Loadingreadyrun''\<rparr>),
     (''podcast'', \<lparr>feed_title = ''LRRcast Feed'',
                    feed_url = ''http://loadingreadyrun.com/lrrcasts/feed/all''\<rparr>)]"

subsection \<open>Dates\<close>

text \<open>
  \<open>published_parsed\<close> is a \<open>time.struct_time\<close>; the code passes its first six
  fields to the constructor of \<open>datetime.datetime\<close>, which raises \<open>ValueError\<close>
  when one of them is out of range.
\<close>

datatype py_error = KeyError | ValueError | CancelledError

record struct_time =
  tm_year :: int
  tm_mon :: int
  tm_mday :: int
  tm_hour :: int
  tm_min :: int
  tm_sec :: int

record datetime =
  year :: nat
  month :: nat
  day :: nat
  hour :: nat
  minute :: nat
  second :: nat

definition is_leap :: "int \<Rightarrow> bool" where
  "is_leap y = (y mod 4 = 0 \<and> (y mod 400 = 0 \<or> y mod 100 \<noteq> 0))"

definition days_in_month :: "int \<Rightarrow> int \<Rightarrow> int" where
  "days_in_month y m =
     (if m = 2 then (if is_leap y then 29 else 28)
      else if m = 4 \<or> m = 6 \<or> m = 9 \<or> m = 11 then 30 else 31)"

definition datetime_new :: "struct_time \<Rightarrow> py_error + datetime" where
  "datetime_new t =
     (if 1 \<le> tm_year t \<and> tm_year t \<le> 9999 \<and> 1 \<le> tm_mon t \<and> tm_mon t \<le> 12 \<and>
         1 \<le> tm_mday t \<and> tm_mday t \<le> days_in_month (tm_year t) (tm_mon t) \<and>
         0 \<le> tm_hour t \<and> tm_hour t \<le> 23 \<and> 0 \<le> tm_min t \<and> tm_min t \<le> 59 \<and>
         0 \<le> tm_sec t \<and> tm_sec t \<le> 59
      then Inr \<lparr>year = nat (tm_year t), month = nat (tm_mon t), day = nat (tm_mday t),
                hour = nat (tm_hour t), minute = nat (tm_min t), second = nat (tm_sec t)\<rparr>
      else Inl ValueError)"

definition digit :: "nat \<Rightarrow> char" where
  "digit n = ''0123456789'' ! (n mod 10)"

definition pad2 :: "nat \<Rightarrow> string" where
  "pad2 n = [digit (n div 10), digit n]"

definition pad4 :: "nat \<Rightarrow> string" where
  "pad4 n = [digit (n div 1000), digit (n div 100), digit (n div 10), digit n]"

text \<open>
  \<open>isoformat()\<close> of a datetime without microseconds and without a time zone:
  \<open>YYYY-MM-DDTHH:MM:SS\<close>, every field padded with zeros.
\<close>

definition isoformat :: "datetime \<Rightarrow> string" where
  "isoformat d =
     pad4 (year d) @ ''-'' @ pad2 (month d) @ ''-'' @ pad2 (day d) @ ''T'' @
     pad2 (hour d) @ '':'' @ pad2 (minute d) @ '':'' @ pad2 (second d)"

subsection \<open>Entries, feed state, instances\<close>

record entry =
  url :: string
  title :: string
  time :: datetime

text \<open>An entry of the parsed feed, as \<open>feedparser\<close> gives it.\<close>

record feed_entry =
  guid :: string
  entry_title :: string
  published_parsed :: struct_time

text \<open>
  What the request of \<open>get_latest\<close> meets: \<open>ClientError\<close> is raised, the task is
  cancelled while it waits (\<open>CancelledError\<close> is raised at the \<open>await\<close>), or a body
  arrives, given here by the entries \<open>feedparser.parse\<close> finds in it, newest first.
\<close>

datatype response = ClientError | Cancelled | Body "feed_entry list"

datatype level = DEBUG | INFO | WARNING | ERROR

datatype event =
    Log level string
  | Request string
  | Privmsg nat string string
  | Announce nat string
  | Sleep real

datatype task_status = Pending | CancelRequested | Done

record parser =
  delay :: real
  client :: nat

text \<open>
  A task of the event loop wraps the coroutine \<open>self.auto_update(feed)\<close>.
  \<open>Task.cancel()\<close> only asks for the cancellation: \<open>CancelledError\<close> is thrown
  into the coroutine when the event loop next runs the task.
\<close>

record task_info =
  task_self :: parser
  task_feed :: feed
  task_status :: task_status

record feed_state =
  task :: nat
  lock :: bool
  last_time :: real
  latest :: "entry option"

record gstate =
  updater :: "feed \<rightharpoonup> feed_state"
  tasks :: "task_info list"

datatype outcome = Returned | Waiting | Raised py_error

definition put :: "gstate \<Rightarrow> feed \<Rightarrow> feed_state \<Rightarrow> gstate" where
  "put st feed fs = st\<lparr>updater := (updater st)(feed \<mapsto> fs)\<rparr>"

fun is_notification :: "event \<Rightarrow> bool" where
  "is_notification (Privmsg c t m) = True"
| "is_notification (Announce c m) = True"
| "is_notification e = False"

fun is_request :: "event \<Rightarrow> bool" where
  "is_request (Request u) = True"
| "is_request e = False"

definition notifications :: "event list \<Rightarrow> event list" where
  "notifications evs = filter is_notification evs"

definition requests :: "event list \<Rightarrow> event list" where
  "requests evs = filter is_request evs"

subsection \<open>get_latest\<close>

definition get_latest :: "(string \<Rightarrow> response) \<Rightarrow> string \<Rightarrow> (py_error + entry option) \<times> event list" where
  "get_latest net feed_url' =
     (let ev = [Log DEBUG (''Retrieving latest entry for '' @ feed_url' @ ''.''),
                Request feed_url']
      in case net feed_url' of
           ClientError \<Rightarrow>
             (Inr None,
              ev @ [Log ERROR (''Exception raised when updating RSS feed for '' @ feed_url' @ ''.'')])
         | Cancelled \<Rightarrow> (Inl CancelledError, ev)
         | Body entries \<Rightarrow>
             (case entries of
                [] \<Rightarrow>
                  (Inr None,
                   ev @ [Log WARNING (''RSS feed '' @ feed_url' @ '' did not provide any entries.'')])
              | latest' # rest \<Rightarrow>
                  (case datetime_new (published_parsed latest') of
                     Inl err \<Rightarrow> (Inl err, ev)
                   | Inr time' \<Rightarrow>
                       (Inr (Some \<lparr>url = guid latest', title = entry_title latest', time = time'\<rparr>),
                        ev))))"

subsection \<open>announce\<close>

text \<open>
  \<open>if target:\<close> is Python's truth test: \<open>None\<close> and the empty string are both
  false, and then the message goes to \<open>client.announce\<close>.
\<close>

definition entry_msg :: "feed_info \<Rightarrow> entry \<Rightarrow> string" where
  "entry_msg info e =
     feed_title info @ '': '' @ title e @ '' ('' @ url e @ '') ['' @ isoformat (time e) @ ''Z]''"

definition announce :: "parser \<Rightarrow> gstate \<Rightarrow> feed \<Rightarrow> string option \<Rightarrow> outcome \<times> gstate \<times> event list" where
  "announce self st feed target =
     (case (updater st feed, map_of RSS_FEEDS feed) of
        (Some fs, Some info) \<Rightarrow>
          (case latest fs of
             None \<Rightarrow> (Returned, st, [])
           | Some e \<Rightarrow>
               (case target of
                  Some t \<Rightarrow>
                    if t \<noteq> [] then (Returned, st, [Privmsg (client self) t (entry_msg info e)])
                    else (Returned, st, [Announce (client self) (entry_msg info e)])
                | None \<Rightarrow> (Returned, st, [Announce (client self) (entry_msg info e)])))
      | _ \<Rightarrow> (Returned, st, [Log WARNING (''Cannot announce unknown RSS feed '' @ feed @ ''.'')]))"

subsection \<open>update\<close>

text \<open>
  The body of \<open>async with self.updater[feed]["lock"]\<close>: it runs with the lock held.
  Every subscript \<open>self.updater[feed]\<close> and \<open>RSS_FEEDS[feed]\<close> raises \<open>KeyError\<close>
  on a missing key. An exception of \<open>get_latest\<close> leaves the body before the timer
  is reset.
\<close>

definition update_locked ::
  "parser \<Rightarrow> gstate \<Rightarrow> feed \<Rightarrow> bool \<Rightarrow> (string \<Rightarrow> response) \<Rightarrow> real \<Rightarrow> outcome \<times> gstate \<times> event list" where
  "update_locked self st feed announce_flag net now =
     (let ev1 = [Log DEBUG (''Running update for RSS feed '' @ feed @ ''.'')]
      in case map_of RSS_FEEDS feed of
           None \<Rightarrow> (Raised KeyError, st, ev1)
         | Some info \<Rightarrow>
             (case get_latest net (feed_url info) of
                (Inl err, ev2) \<Rightarrow> (Raised err, st, ev1 @ ev2)
              | (Inr new_entry, ev2) \<Rightarrow>
                  (case updater st feed of
                     None \<Rightarrow> (Raised KeyError, st, ev1 @ ev2)
                   | Some fs \<Rightarrow>
                       (let st1 = put st feed (fs\<lparr>last_time := now\<rparr>)
                        in case new_entry of
                             None \<Rightarrow>
                               (Returned, st1,
                                ev1 @ ev2 @
                                [Log ERROR (''Update for RSS feed '' @ feed @
                                            '' did not complete successfully.'')])
                           | Some ne \<Rightarrow>
                               (let old_entry = latest fs;
                                    st2 = put st feed (fs\<lparr>last_time := now, latest := Some ne\<rparr>)
                                in case old_entry of
                                     None \<Rightarrow>
                                       (Returned, st2,
                                        ev1 @ ev2 @
                                        [Log INFO (''Detected first entry for RSS feed '' @ feed @ ''.'')])
                                   | Some oe \<Rightarrow>
                                       if url oe \<noteq> url ne then
                                         (let ev3 = [Log INFO (''Detected new entry for RSS feed '' @
                                                               feed @ ''.'')]
                                          in if announce_flag then
                                               (case announce self st2 feed None of
                                                  (oc, st3, ev4) \<Rightarrow> (oc, st3, ev1 @ ev2 @ ev3 @ ev4))
                                             else (Returned, st2, ev1 @ ev2 @ ev3))
                                       else (Returned, st2, ev1 @ ev2))))))"

definition release :: "gstate \<Rightarrow> feed \<Rightarrow> gstate" where
  "release st feed =
     (case updater st feed of None \<Rightarrow> st | Some fs \<Rightarrow> put st feed (fs\<lparr>lock := False\<rparr>))"

text \<open>
  One call of \<open>update\<close>. A caller that finds the lock held waits for it: in this model
  the call makes no step (\<open>Waiting\<close>). Otherwise the lock is taken, the body runs, and
  the lock is released however the body ends. The cycle is one transition: what the body
  finds in \<open>updater\<close> after the request is what it left there before it, so calls of
  \<open>start\<close> and \<open>stop\<close> that run while the request is pending are not part of the
  model.
\<close>

definition update ::
  "parser \<Rightarrow> gstate \<Rightarrow> feed \<Rightarrow> bool \<Rightarrow> (string \<Rightarrow> response) \<Rightarrow> real \<Rightarrow> outcome \<times> gstate \<times> event list" where
  "update self st feed announce_flag net now =
     (case (updater st feed, map_of RSS_FEEDS feed) of
        (Some fs, Some info) \<Rightarrow>
          if lock fs then (Waiting, st, [])
          else (case update_locked self (put st feed (fs\<lparr>lock := True\<rparr>)) feed announce_flag net now of
                  (oc, st', evs) \<Rightarrow> (oc, release st' feed, evs))
      | _ \<Rightarrow> (Returned, st, [Log WARNING (''Cannot update unknown RSS feed '' @ feed @ ''.'')]))"

subsection \<open>start and stop\<close>

text \<open>The loop \<open>for feed in RSS_FEEDS.keys()\<close> of \<open>start\<close>, over the keys left.\<close>

fun start_feeds :: "parser \<Rightarrow> feed list \<Rightarrow> gstate \<Rightarrow> gstate \<times> event list" where
  "start_feeds self [] st = (st, [])"
| "start_feeds self (feed # feeds) st =
     (case updater st feed of
        None \<Rightarrow>
          start_feeds self feeds
            (put (st\<lparr>tasks := tasks st @
                               [\<lparr>task_self = self, task_feed = feed, task_status = Pending\<rparr>]\<rparr>)
                 feed \<lparr>task = length (tasks st), lock = False, last_time = 0, latest = None\<rparr>)
      | Some fs \<Rightarrow>
          (case start_feeds self feeds st of
             (st', evs) \<Rightarrow>
               (st', Log WARNING (''Automatic update for RSS feed '' @ feed @
                                  '' is already running.'') # evs)))"

definition start :: "parser \<Rightarrow> gstate \<Rightarrow> gstate \<times> event list" where
  "start self st = start_feeds self (map fst RSS_FEEDS) st"

definition cancel :: "task_info \<Rightarrow> task_info" where
  "cancel t = (if task_status t = Done then t else t\<lparr>task_status := CancelRequested\<rparr>)"

text \<open>
  The loop of \<open>stop\<close>. The task of a tracked feed is one the event loop knows
  (\<open>task fs < length (tasks st)\<close>); \<open>xs[i := v]\<close> changes nothing otherwise.
\<close>

fun stop_feeds :: "parser \<Rightarrow> feed list \<Rightarrow> gstate \<Rightarrow> gstate \<times> event list" where
  "stop_feeds self [] st = (st, [])"
| "stop_feeds self (feed # feeds) st =
     (case updater st feed of
        Some fs \<Rightarrow>
          stop_feeds self feeds
            (st\<lparr>tasks := (tasks st)[task fs := cancel (tasks st ! task fs)],
                updater := (updater st)(feed := None)\<rparr>)
      | None \<Rightarrow>
          (case stop_feeds self feeds st of
             (st', evs) \<Rightarrow>
               (st', Log WARNING (''Automatic update for RSS feed '' @ feed @
                                  '' is not running.'') # evs)))"

definition stop :: "parser \<Rightarrow> gstate \<Rightarrow> gstate \<times> event list" where
  "stop self st =
     (case stop_feeds self (map fst RSS_FEEDS) st of
        (st', evs) \<Rightarrow> (st', evs @ [Log INFO ''Waiting for automatic update to finish.'']))"

subsection \<open>auto_update\<close>

text \<open>
  The arithmetic of \<open>auto_update\<close> is float arithmetic: \<open>fadd\<close> and \<open>fsub\<close> are the
  rounded sum and difference of two floats, and \<open>tenth\<close> is the float that the literal
  \<open>0.1\<close> denotes. Nothing is assumed about them.
\<close>

record float_ops =
  fadd :: "real \<Rightarrow> real \<Rightarrow> real"
  fsub :: "real \<Rightarrow> real \<Rightarrow> real"
  tenth :: real

text \<open>
  The coroutine runs until it is cancelled or an exception leaves it, so the model runs it
  over a finite list of what the environment gives to each turn of \<open>while True\<close>:
  the clock reading at the top of the loop; whether the sleep of this turn is interrupted
  by \<open>CancelledError\<close>; and, for a turn that refreshes, the network and the clock
  reading inside \<open>update\<close>. When the list is used up the task is still suspended.
\<close>

record tick =
  t_now :: real
  t_cancel :: bool
  t_net :: "string \<Rightarrow> response"
  t_upd :: real

datatype task_result = Suspended | Finished | Failed py_error

definition cancelled_msg :: "feed \<Rightarrow> event" where
  "cancelled_msg feed = Log INFO (''Automatic update for RSS feed '' @ feed @ '' was cancelled.'')"

fun auto_update_loop ::
  "float_ops \<Rightarrow> parser \<Rightarrow> feed \<Rightarrow> tick list \<Rightarrow> gstate \<Rightarrow> task_result \<times> gstate \<times> event list" where
  "auto_update_loop fl self feed [] st = (Suspended, st, [])"
| "auto_update_loop fl self feed (tk # tks) st =
     (case updater st feed of
        None \<Rightarrow> (Failed KeyError, st, [])
      | Some fs \<Rightarrow>
          (let now = t_now tk; nxt = fadd fl (last_time fs) (delay self)
           in if nxt > now then
                (let naptime = fadd fl (tenth fl) (fsub fl nxt now)
                 in if t_cancel tk then (Finished, st, [Sleep naptime, cancelled_msg feed])
                    else (case auto_update_loop fl self feed tks st of
                            (res, st', evs) \<Rightarrow> (res, st', Sleep naptime # evs)))
              else
                (case update self st feed True (t_net tk) (t_upd tk) of
                   (Returned, st', evs) \<Rightarrow>
                     (case auto_update_loop fl self feed tks st' of
                        (res, st'', evs') \<Rightarrow> (res, st'', evs @ evs'))
                 | (Waiting, st', evs) \<Rightarrow> (Suspended, st', evs)
                 | (Raised CancelledError, st', evs) \<Rightarrow> (Finished, st', evs @ [cancelled_msg feed])
                 | (Raised err, st', evs) \<Rightarrow> (Failed err, st', evs))))"

definition auto_update ::
  "float_ops \<Rightarrow> parser \<Rightarrow> feed \<Rightarrow> tick list \<Rightarrow> gstate \<Rightarrow> task_result \<times> gstate \<times> event list" where
  "auto_update fl self feed tks st =
     (case auto_update_loop fl self feed tks st of
        (res, st', evs) \<Rightarrow>
          (res, st', Log INFO (''Starting automatic update for RSS feed '' @ feed @ ''.'') # evs))"

subsection \<open>Example data\<close>

definition initial :: gstate where
  "initial = \<lparr>updater = Map.empty, tasks = []\<rparr>"

definition p0 :: parser where
  "p0 = \<lparr>delay = 300, client = 0\<rparr>"

definition p1 :: parser where
  "p1 = \<lparr>delay = 60, client = 1\<rparr>"

definition ep1 :: entry where
  "ep1 = \<lparr>url = ''v1'', title = ''Ep1'',
           time = \<lparr>year = 2015, month = 1, day = 1, hour = 0, minute = 0, second = 0\<rparr>\<rparr>"

definition raw1' :: feed_entry where
  "raw1' = \<lparr>guid = ''v1'', entry_title = ''Ep1 (updated desc)'',
            published_parsed = \<lparr>tm_year = 2015, tm_mon = 1, tm_mday = 1,
                                  tm_hour = 0, tm_min = 5, tm_sec = 0\<rparr>\<rparr>"

definition raw2 :: feed_entry where
  "raw2 = \<lparr>guid = ''v2'', entry_title = ''Ep2'',
           published_parsed = \<lparr>tm_year = 2015, tm_mon = 2, tm_mday = 3,
                                 tm_hour = 4, tm_min = 5, tm_sec = 6\<rparr>\<rparr>"



definition fresh :: gstate where
  "fresh = \<lparr>updater = [''video'' \<mapsto> \<lparr>task = 0, lock = False, last_time = 0, latest = None\<rparr>,
                        ''podcast'' \<mapsto> \<lparr>task = 1, lock = False, last_time = 0, latest = None\<rparr>],
            tasks = [\<lparr>task_self = p0, task_feed = ''video'', task_status = Pending\<rparr>,
                     \<lparr>task_self = p0, task_feed = ''podcast'', task_status = Pending\<rparr>]\<rparr>"

definition cached :: gstate where
  "cached = \<lparr>updater = [''video'' \<mapsto> \<lparr>task = 0, lock = False, last_time = 7, latest = Some ep1\<rparr>,
                         ''podcast'' \<mapsto> \<lparr>task = 1, lock = False, last_time = 0, latest = None\<rparr>],
             tasks = [\<lparr>task_self = p0, task_feed = ''video'', task_status = Pending\<rparr>,
                      \<lparr>task_self = p0, task_feed = ''podcast'', task_status = Pending\<rparr>]\<rparr>"

section \<open>Properties\<close>

subsection \<open>What get_latest does to the outside world\<close>

lemmas update_defs = update_def update_locked_def release_def put_def

lemma get_latest_None_iff:
  "fst (get_latest net u) = Inr None \<longleftrightarrow> net u = ClientError \<or> net u = Body []"
  by (auto simp: get_latest_def Let_def split: response.splits list.splits sum.splits)


lemma get_latest_notifications: "notifications (snd (get_latest net u)) = []"
  by (auto simp: get_latest_def notifications_def Let_def split: response.splits list.splits sum.splits)

subsection \<open>One refresh cycle\<close>

text \<open>
  A call of \<open>update\<close> for a tracked feed of the catalog whose lock is free and whose
  fetch returns (an entry or nothing): the timer is reset, a fetched entry is stored, and
  only a change of the url is announced.
\<close>

lemma update_cycle:
  assumes "updater st feed = Some fs" and "map_of RSS_FEEDS feed = Some info"
    and "\<not> lock fs" and "get_latest net (feed_url info) = (Inr r, ev2)"
  shows "update self st feed flag net now =
    (case r of
       None \<Rightarrow>
         (Returned, put st feed (fs\<lparr>last_time := now\<rparr>),
          Log DEBUG (''Running update for RSS feed '' @ feed @ ''.'') # ev2 @
          [Log ERROR (''Update for RSS feed '' @ feed @ '' did not complete successfully.'')])
     | Some ne \<Rightarrow>
         (Returned, put st feed (fs\<lparr>last_time := now, latest := Some ne\<rparr>),
          Log DEBUG (''Running update for RSS feed '' @ feed @ ''.'') # ev2 @
          (case latest fs of
             None \<Rightarrow> [Log INFO (''Detected first entry for RSS feed '' @ feed @ ''.'')]
           | Some oe \<Rightarrow>
               if url oe \<noteq> url ne then
                 Log INFO (''Detected new entry for RSS feed '' @ feed @ ''.'') #
                 (if flag then [Announce (client self) (entry_msg info ne)] else [])
               else [])))"
  using assms
  by (cases fs) (auto simp: update_defs announce_def Let_def split: option.splits)

text \<open>
  C1. When the fetch of a refresh cycle succeeds and the feed has no cached entry
  (\<open>latest\<close> is \<open>None\<close>), the cycle stores the fetched entry as \<open>latest\<close> and calls
  neither \<open>client.announce\<close> nor \<open>client.privmsg\<close>, whatever the entry holds and
  whatever the \<open>announce\<close> flag is.
\<close>

theorem first_observation_stored_silently:
  assumes "updater st feed = Some fs" and "map_of RSS_FEEDS feed = Some info"
    and "\<not> lock fs" and "latest fs = None"
    and "fst (get_latest net (feed_url info)) = Inr (Some ne)"
  shows "case update self st feed flag net now of
           (oc, st', evs) \<Rightarrow>
             oc = Returned \<and> map_option latest (updater st' feed) = Some (Some ne) \<and>
             notifications evs = []"
proof -
  obtain ev2 where g: "get_latest net (feed_url info) = (Inr (Some ne), ev2)"
    using assms(5) by (cases "get_latest net (feed_url info)") simp
  have n: "notifications ev2 = []"
    using get_latest_notifications [of net "feed_url info"] g by simp
  show ?thesis
    using assms(4) n
    by (simp add: update_cycle [OF assms(1-3) g] put_def notifications_def)
qed

theorem first_observation_stored_silently_witness:
  "case update p0 fresh ''video'' True (\<lambda>u. Body [raw2]) 5 of
     (oc, st', evs) \<Rightarrow>
       oc = Returned \<and>
       map_option latest (updater st' ''video'') =
         Some (Some \<lparr>url = ''v2'', title = ''Ep2'',
                      time = \<lparr>year = 2015, month = 2, day = 3, hour = 4, minute = 5, second = 6\<rparr>\<rparr>) \<and>
       notifications evs = []"
  using first_observation_stored_silently
    [where st = fresh and feed = "''video''" and self = p0 and flag = True and now = 5
       and fs = "\<lparr>task = 0, lock = False, last_time = 0, latest = None\<rparr>"
       and info = "\<lparr>feed_title = ''LRR Video Feed'', feed_url = ''http://feeds.feedburner.com/Loadingreadyrun''\<rparr>"
       and net = "\<lambda>u. Body [raw2]"
       and ne = "\<lparr>url = ''v2'', title = ''Ep2'',
          time = \<lparr>year = 2015, month = 2, day = 3, hour = 4, minute = 5, second = 6\<rparr>\<rparr>"]
  by (simp add: fresh_def RSS_FEEDS_def get_latest_def raw2_def datetime_new_def
      days_in_month_def is_leap_def)

text \<open>
  C2. When the feed has a cached entry, the fetched entry has another url and the
  \<open>announce\<close> flag is true, the cycle sends exactly one notification; its message is
  the feed's title, the title of the new entry, its url and its time in ISO 8601 form
  followed by \<open>Z\<close>.
\<close>

theorem new_entry_announced_once:
  assumes "updater st feed = Some fs" and "map_of RSS_FEEDS feed = Some info"
    and "\<not> lock fs" and "latest fs = Some oe"
    and "fst (get_latest net (feed_url info)) = Inr (Some ne)"
    and "url oe \<noteq> url ne"
  shows "notifications (snd (snd (update self st feed True net now))) =
           [Announce (client self)
              (feed_title info @ '': '' @ title ne @ '' ('' @ url ne @ '') ['' @
               isoformat (time ne) @ ''Z]'')]"
proof -
  obtain ev2 where g: "get_latest net (feed_url info) = (Inr (Some ne), ev2)"
    using assms(5) by (cases "get_latest net (feed_url info)") simp
  have n: "notifications ev2 = []"
    using get_latest_notifications [of net "feed_url info"] g by simp
  show ?thesis
    using assms(4,6) n
    by (simp add: update_cycle [OF assms(1-3) g] notifications_def entry_msg_def)
qed

theorem new_entry_announced_once_witness:
  "notifications (snd (snd (update p0 cached ''video'' True (\<lambda>u. Body [raw2]) 5))) =
     [Announce 0 ''LRR Video Feed: Ep2 (v2) [2015-02-03T04:05:06Z]'']"
  using new_entry_announced_once
    [where st = cached and feed = "''video''" and self = p0 and now = 5
       and fs = "\<lparr>task = 0, lock = False, last_time = 7, latest = Some ep1\<rparr>"
       and info = "\<lparr>feed_title = ''LRR Video Feed'', feed_url = ''http://feeds.feedburner.com/Loadingreadyrun''\<rparr>"
       and oe = ep1 and net = "\<lambda>u. Body [raw2]"
       and ne = "\<lparr>url = ''v2'', title = ''Ep2'',
          time = \<lparr>year = 2015, month = 2, day = 3, hour = 4, minute = 5, second = 6\<rparr>\<rparr>"]
  by (simp add: cached_def RSS_FEEDS_def get_latest_def raw2_def datetime_new_def
      days_in_month_def is_leap_def ep1_def p0_def isoformat_def pad2_def pad4_def digit_def)

text \<open>
  C3. When the fetched entry has the url of the cached entry, the cycle sends no
  notification, whatever the title and the time of the fetched entry are and whatever the
  \<open>announce\<close> flag is.
\<close>

theorem same_url_not_announced:
  assumes "updater st feed = Some fs" and "map_of RSS_FEEDS feed = Some info"
    and "\<not> lock fs" and "latest fs = Some oe"
    and "fst (get_latest net (feed_url info)) = Inr (Some ne)"
    and "url ne = url oe"
  shows "notifications (snd (snd (update self st feed flag net now))) = []"
proof -
  obtain ev2 where g: "get_latest net (feed_url info) = (Inr (Some ne), ev2)"
    using assms(5) by (cases "get_latest net (feed_url info)") simp
  have n: "notifications ev2 = []"
    using get_latest_notifications [of net "feed_url info"] g by simp
  show ?thesis
    using assms(4,6) n
    by (simp add: update_cycle [OF assms(1-3) g] notifications_def)
qed

theorem same_url_not_announced_witness:
  "title ep1 \<noteq> entry_title raw1' \<and>
   notifications (snd (snd (update p0 cached ''video'' True (\<lambda>u. Body [raw1']) 5))) = []"
  using same_url_not_announced
    [where st = cached and feed = "''video''" and self = p0 and flag = True and now = 5
       and fs = "\<lparr>task = 0, lock = False, last_time = 7, latest = Some ep1\<rparr>"
       and info = "\<lparr>feed_title = ''LRR Video Feed'', feed_url = ''http://feeds.feedburner.com/Loadingreadyrun''\<rparr>"
       and oe = ep1 and net = "\<lambda>u. Body [raw1']"
       and ne = "\<lparr>url = ''v1'', title = ''Ep1 (updated desc)'',
          time = \<lparr>year = 2015, month = 1, day = 1, hour = 0, minute = 5, second = 0\<rparr>\<rparr>"]
  by (simp add: cached_def RSS_FEEDS_def get_latest_def raw1'_def datetime_new_def
      days_in_month_def is_leap_def ep1_def)

text \<open>
  C4 says that a cycle whose fetched entry has the url of the cached one leaves
  \<open>latest\<close> as it was. The code stores the fetched entry before it compares the urls:
  with \<open>Ep1\<close> cached for the video feed, a fetch of the same url with a new title
  and time replaces the cached record.
\<close>

theorem same_url_cache_replaced_counterexample:
  "updater cached ''video'' = Some \<lparr>task = 0, lock = False, last_time = 7, latest = Some ep1\<rparr> \<and>
   fst (get_latest (\<lambda>u. Body [raw1']) ''http://feeds.feedburner.com/Loadingreadyrun'') =
     Inr (Some \<lparr>url = url ep1, title = ''Ep1 (updated desc)'',
                 time = \<lparr>year = 2015, month = 1, day = 1, hour = 0, minute = 5, second = 0\<rparr>\<rparr>) \<and>
   map_option latest (updater (fst (snd (update p0 cached ''video'' True (\<lambda>u. Body [raw1']) 5))) ''video'')
     \<noteq> map_option latest (updater cached ''video'')"
  by (simp add: update_defs cached_def RSS_FEEDS_def get_latest_def raw1'_def datetime_new_def
      days_in_month_def is_leap_def ep1_def)

text \<open>
  C4, as the code has it. When the fetched entry has the url of the cached entry, the
  cycle returns, sends no notification and changes the state of this feed only, in two
  fields: \<open>last_time\<close> becomes the current time and \<open>latest\<close> becomes the fetched
  entry (same url, title and time as fetched).
\<close>

theorem same_url_cache_overwritten:
  assumes "updater st feed = Some fs" and "map_of RSS_FEEDS feed = Some info"
    and "\<not> lock fs" and "latest fs = Some oe"
    and "fst (get_latest net (feed_url info)) = Inr (Some ne)"
    and "url ne = url oe"
  shows "case update self st feed flag net now of
           (oc, st', evs) \<Rightarrow>
             oc = Returned \<and>
             st' = st\<lparr>updater := (updater st)(feed \<mapsto> fs\<lparr>last_time := now, latest := Some ne\<rparr>)\<rparr> \<and>
             notifications evs = []"
proof -
  obtain ev2 where g: "get_latest net (feed_url info) = (Inr (Some ne), ev2)"
    using assms(5) by (cases "get_latest net (feed_url info)") simp
  have n: "notifications ev2 = []"
    using get_latest_notifications [of net "feed_url info"] g by simp
  show ?thesis
    using assms(4,6) n
    by (simp add: update_cycle [OF assms(1-3) g] notifications_def put_def)
qed

theorem same_url_cache_overwritten_witness:
  "case update p0 cached ''video'' False (\<lambda>u. Body [raw1']) 5 of
     (oc, st', evs) \<Rightarrow>
       oc = Returned \<and>
       st' = cached\<lparr>updater := (updater cached)(''video'' \<mapsto>
                \<lparr>task = 0, lock = False, last_time = 7, latest = Some ep1\<rparr>
                \<lparr>last_time := 5,
                 latest := Some \<lparr>url = ''v1'', title = ''Ep1 (updated desc)'',
                   time = \<lparr>year = 2015, month = 1, day = 1, hour = 0, minute = 5, second = 0\<rparr>\<rparr>\<rparr>)\<rparr> \<and>
       notifications evs = []"
  using same_url_cache_overwritten
    [where st = cached and feed = "''video''" and self = p0 and flag = False and now = 5
       and fs = "\<lparr>task = 0, lock = False, last_time = 7, latest = Some ep1\<rparr>"
       and info = "\<lparr>feed_title = ''LRR Video Feed'', feed_url = ''http://feeds.feedburner.com/Loadingreadyrun''\<rparr>"
       and oe = ep1 and net = "\<lambda>u. Body [raw1']"
       and ne = "\<lparr>url = ''v1'', title = ''Ep1 (updated desc)'',
          time = \<lparr>year = 2015, month = 1, day = 1, hour = 0, minute = 5, second = 0\<rparr>\<rparr>"]
  by (simp add: cached_def RSS_FEEDS_def get_latest_def raw1'_def datetime_new_def
      days_in_month_def is_leap_def ep1_def)

text \<open>
  C5. When \<open>get_latest\<close> returns nothing (the request raised \<open>ClientError\<close>, or the
  feed had no entries: \<open>get_latest_None_iff\<close>), the cycle returns with \<open>latest\<close> as
  it was before and sends no notification.
\<close>

theorem failed_fetch_keeps_latest:
  assumes "updater st feed = Some fs" and "map_of RSS_FEEDS feed = Some info"
    and "\<not> lock fs"
    and "fst (get_latest net (feed_url info)) = Inr None"
  shows "case update self st feed flag net now of
           (oc, st', evs) \<Rightarrow>
             oc = Returned \<and> map_option latest (updater st' feed) = Some (latest fs) \<and>
             notifications evs = []"
proof -
  obtain ev2 where g: "get_latest net (feed_url info) = (Inr None, ev2)"
    using assms(4) by (cases "get_latest net (feed_url info)") simp
  have n: "notifications ev2 = []"
    using get_latest_notifications [of net "feed_url info"] g by simp
  show ?thesis
    using n
    by (simp add: update_cycle [OF assms(1-3) g] notifications_def put_def)
qed

theorem failed_fetch_keeps_latest_witness:
  "(case update p0 cached ''video'' True (\<lambda>u. ClientError) 5 of
     (oc, st', evs) \<Rightarrow>
       oc = Returned \<and> map_option latest (updater st' ''video'') = Some (Some ep1) \<and>
       notifications evs = []) \<and>
   (case update p0 cached ''video'' True (\<lambda>u. Body []) 5 of
     (oc, st', evs) \<Rightarrow>
       oc = Returned \<and> map_option latest (updater st' ''video'') = Some (Some ep1) \<and>
       notifications evs = [])"
  using failed_fetch_keeps_latest
    [where st = cached and feed = "''video''" and self = p0 and flag = True and now = 5
       and fs = "\<lparr>task = 0, lock = False, last_time = 7, latest = Some ep1\<rparr>"
       and info = "\<lparr>feed_title = ''LRR Video Feed'',
                    feed_url = ''http://feeds.feedburner.com/Loadingreadyrun''\<rparr>"
       and net = "\<lambda>u. ClientError"]
    failed_fetch_keeps_latest
    [where st = cached and feed = "''video''" and self = p0 and flag = True and now = 5
       and fs = "\<lparr>task = 0, lock = False, last_time = 7, latest = Some ep1\<rparr>"
       and info = "\<lparr>feed_title = ''LRR Video Feed'',
                    feed_url = ''http://feeds.feedburner.com/Loadingreadyrun''\<rparr>"
       and net = "\<lambda>u. Body []"]
  by (simp add: cached_def RSS_FEEDS_def get_latest_def)

subsection \<open>Unknown feeds\<close>

text \<open>
  C8. \<open>update\<close> for a feed that is not tracked or not in the catalog logs one warning
  and returns: the state is unchanged, and the only event is the warning, so there is no
  request, no notification and no exception.
\<close>

theorem unknown_feed_update_is_noop:
  assumes "updater st feed = None \<or> map_of RSS_FEEDS feed = None"
  shows "update self st feed flag net now =
           (Returned, st, [Log WARNING (''Cannot update unknown RSS feed '' @ feed @ ''.'')])"
  using assms by (auto simp: update_def split: option.splits)

theorem unknown_feed_update_is_noop_witness:
  "update p0 cached ''nope'' True (\<lambda>u. Body [raw2]) 5 =
     (Returned, cached, [Log WARNING ''Cannot update unknown RSS feed nope.'']) \<and>
   update p0 initial ''video'' True (\<lambda>u. Body [raw2]) 5 =
     (Returned, initial, [Log WARNING ''Cannot update unknown RSS feed video.''])"
  using unknown_feed_update_is_noop
      [where st = cached and feed = "''nope''" and self = p0 and flag = True
         and net = "\<lambda>u. Body [raw2]" and now = 5]
    unknown_feed_update_is_noop
      [where st = initial and feed = "''video''" and self = p0 and flag = True
         and net = "\<lambda>u. Body [raw2]" and now = 5]
  by (simp add: cached_def initial_def RSS_FEEDS_def)

subsection \<open>announce\<close>

text \<open>
  C9 says that a cached entry goes to the recipient as a direct message whenever a target
  is given. The test \<open>if target:\<close> is false for the empty string too: with an empty
  target the cached entry of the video feed is sent with \<open>client.announce\<close>.
\<close>

theorem announce_empty_target_counterexample:
  "updater cached ''video'' = Some \<lparr>task = 0, lock = False, last_time = 7, latest = Some ep1\<rparr> \<and>
   announce p0 cached ''video'' (Some '''') =
     (Returned, cached, [Announce 0 ''LRR Video Feed: Ep1 (v1) [2015-01-01T00:00:00Z]'']) \<and>
   snd (snd (announce p0 cached ''video'' (Some ''''))) \<noteq>
     [Privmsg 0 '''' ''LRR Video Feed: Ep1 (v1) [2015-01-01T00:00:00Z]'']"
  by (simp add: announce_def cached_def RSS_FEEDS_def ep1_def p0_def entry_msg_def
      isoformat_def pad2_def pad4_def digit_def)

text \<open>
  C9, as the code has it. For a tracked feed of the catalog \<open>announce\<close> returns, leaves
  the state as it is and makes no request. It sends nothing when no entry is cached.
  When an entry is cached it sends that entry once: with \<open>client.privmsg\<close> to the target
  when the target is a non-empty string, with \<open>client.announce\<close> when the target is
  \<open>None\<close> or empty.
\<close>

theorem announce_resends_cached_entry:
  assumes "updater st feed = Some fs" and "map_of RSS_FEEDS feed = Some info"
  shows "case announce self st feed target of
           (oc, st', evs) \<Rightarrow>
             oc = Returned \<and> st' = st \<and> requests evs = [] \<and>
             (case latest fs of
                None \<Rightarrow> evs = []
              | Some e \<Rightarrow>
                  (case target of
                     None \<Rightarrow> evs = [Announce (client self) (entry_msg info e)]
                   | Some t \<Rightarrow>
                       evs = (if t = [] then [Announce (client self) (entry_msg info e)]
                              else [Privmsg (client self) t (entry_msg info e)])))"
  using assms
  by (auto simp: announce_def requests_def split: option.splits)

theorem announce_resends_cached_entry_witness:
  "announce p0 fresh ''video'' (Some ''nick'') = (Returned, fresh, []) \<and>
   announce p0 cached ''video'' (Some ''nick'') =
     (Returned, cached, [Privmsg 0 ''nick'' ''LRR Video Feed: Ep1 (v1) [2015-01-01T00:00:00Z]'']) \<and>
   announce p0 cached ''video'' None =
     (Returned, cached, [Announce 0 ''LRR Video Feed: Ep1 (v1) [2015-01-01T00:00:00Z]''])"
  using announce_resends_cached_entry
      [where st = fresh and feed = "''video''" and self = p0 and target = "Some ''nick''"
         and fs = "\<lparr>task = 0, lock = False, last_time = 0, latest = None\<rparr>"
         and info = "\<lparr>feed_title = ''LRR Video Feed'',
                      feed_url = ''http://feeds.feedburner.com/Loadingreadyrun''\<rparr>"]
    announce_resends_cached_entry
      [where st = cached and feed = "''video''" and self = p0 and target = "Some ''nick''"
         and fs = "\<lparr>task = 0, lock = False, last_time = 7, latest = Some ep1\<rparr>"
         and info = "\<lparr>feed_title = ''LRR Video Feed'',
                      feed_url = ''http://feeds.feedburner.com/Loadingreadyrun''\<rparr>"]
    announce_resends_cached_entry
      [where st = cached and feed = "''video''" and self = p0 and target = None
         and fs = "\<lparr>task = 0, lock = False, last_time = 7, latest = Some ep1\<rparr>"
         and info = "\<lparr>feed_title = ''LRR Video Feed'',
                      feed_url = ''http://feeds.feedburner.com/Loadingreadyrun''\<rparr>"]
  by (auto simp: fresh_def cached_def RSS_FEEDS_def ep1_def p0_def entry_msg_def
      isoformat_def pad2_def pad4_def digit_def split: prod.splits)

subsection \<open>start\<close>

lemma start_feeds_tracked:
  "set ks \<subseteq> dom (updater st) \<Longrightarrow>
   start_feeds p ks st =
     (st, map (\<lambda>f. Log WARNING (''Automatic update for RSS feed '' @ f @ '' is already running.'')) ks)"
  by (induction ks) auto

lemma start_feeds_dom:
  "dom (updater (fst (start_feeds p ks st))) = dom (updater st) \<union> set ks"
proof (induction ks arbitrary: st)
  case Nil
  then show ?case by simp
next
  case (Cons k ks)
  show ?case
  proof (cases "updater st k")
    case None
    then show ?thesis
      using Cons.IH [of "put (st\<lparr>tasks := tasks st @
                               [\<lparr>task_self = p, task_feed = k, task_status = Pending\<rparr>]\<rparr>)
                 k \<lparr>task = length (tasks st), lock = False, last_time = 0, latest = None\<rparr>"]
      by (auto simp: put_def)
  next
    case (Some fs)
    then have "fst (start_feeds p (k # ks) st) = fst (start_feeds p ks st)"
      by (simp split: prod.splits)
    moreover have "k \<in> dom (updater st)"
      using Some by blast
    ultimately show ?thesis
      using Cons.IH [of st] by auto
  qed
qed

text \<open>
  C10. \<open>updater\<close> belongs to the class, so \<open>start\<close> of any instance reads and writes
  the same dictionary. After \<open>start\<close> of an instance \<open>a\<close>, \<open>start\<close> of an instance
  \<open>b\<close> leaves the state as it is (no feed state and no task is created) and logs one
  warning for every feed of the catalog.
\<close>

theorem second_start_creates_nothing:
  "start b (fst (start a st)) =
     (fst (start a st),
      map (\<lambda>f. Log WARNING (''Automatic update for RSS feed '' @ f @ '' is already running.''))
        (map fst RSS_FEEDS))"
  unfolding start_def
  by (rule start_feeds_tracked) (simp add: start_feeds_dom)

theorem second_start_creates_nothing_witness:
  "start p1 (fst (start p0 initial)) =
     (fst (start p0 initial),
      [Log WARNING ''Automatic update for RSS feed video is already running.'',
       Log WARNING ''Automatic update for RSS feed podcast is already running.''])"
  using second_start_creates_nothing [of p1 p0 initial]
  by (simp add: RSS_FEEDS_def)

subsection \<open>The polling loop\<close>








subsection \<open>stop\<close>

text \<open>\<open>stop\<close> finishes no task: a task that was not done before is not done after.\<close>

lemma stop_feeds_finishes_no_task:
  "i < length (tasks st) \<Longrightarrow> task_status (tasks st ! i) \<noteq> Done \<Longrightarrow>
   length (tasks (fst (stop_feeds p ks st))) = length (tasks st) \<and>
   task_status (tasks (fst (stop_feeds p ks st)) ! i) \<noteq> Done"
proof (induction ks arbitrary: st)
  case Nil
  then show ?case by simp
next
  case (Cons k ks)
  show ?case
  proof (cases "updater st k")
    case None
    then show ?thesis
      using Cons.IH [of st] Cons.prems by (cases "stop_feeds p ks st") simp
  next
    case (Some fs)
    let ?st = "st\<lparr>tasks := (tasks st)[task fs := cancel (tasks st ! task fs)],
                  updater := (updater st)(k := None)\<rparr>"
    have "i < length (tasks ?st)"
      using Cons.prems by simp
    moreover have "task_status (tasks ?st ! i) \<noteq> Done"
    proof (cases "i = task fs")
      case True
      then show ?thesis
        using Cons.prems by (simp add: cancel_def)
    next
      case False
      then show ?thesis
        using Cons.prems by simp
    qed
    ultimately have "length (tasks (fst (stop_feeds p ks ?st))) = length (tasks ?st) \<and>
        task_status (tasks (fst (stop_feeds p ks ?st)) ! i) \<noteq> Done"
      by (rule Cons.IH)
    then show ?thesis
      using Cons.IH [of ?st] Some by simp
  qed
qed

lemma stop_finishes_no_task:
  "i < length (tasks st) \<Longrightarrow> task_status (tasks st ! i) \<noteq> Done \<Longrightarrow>
   task_status (tasks (fst (stop p st)) ! i) \<noteq> Done"
  using stop_feeds_finishes_no_task [of i st p "map fst RSS_FEEDS"]
  by (cases "stop_feeds p (map fst RSS_FEEDS) st") (simp add: stop_def)

text \<open>
  C7 says that \<open>stop\<close> returns only when the cancelled tasks have left their loops.
  \<open>stop\<close> is an ordinary function: it calls \<open>task.cancel()\<close>, deletes the entries,
  logs \<open>Waiting for automatic update to finish.\<close> and returns. Called in the state
  \<open>start\<close> leaves, or later when an entry is cached, it returns with both tasks asked
  to cancel and none of them done.
\<close>

theorem stop_returns_before_tasks_finish:
  "start p0 initial = (fresh, []) \<and>
   (case stop p0 (fst (start p0 initial)) of
      (st', evs) \<Rightarrow>
        map task_status (tasks st') = [CancelRequested, CancelRequested] \<and>
        updater st' ''video'' = None \<and> updater st' ''podcast'' = None \<and>
        evs = [Log INFO ''Waiting for automatic update to finish.'']) \<and>
   (case stop p0 cached of
      (st', evs) \<Rightarrow>
        map task_status (tasks st') = [CancelRequested, CancelRequested] \<and>
        updater st' ''video'' = None \<and> updater st' ''podcast'' = None \<and>
        evs = [Log INFO ''Waiting for automatic update to finish.''])"
  by (simp add: start_def stop_def initial_def fresh_def cached_def put_def RSS_FEEDS_def
      cancel_def)

end
